theory Spec2Isabelle
  imports Main "HOL-Library.AList"
begin

section \<open>Values\<close>

text \<open>
  The values that \<^verbatim>\<open>storage.ts\<close> handles are JSON values together with
  JavaScript's \<^verbatim>\<open>undefined\<close> and with the members of \<^verbatim>\<open>Object.prototype\<close>, which a
  read of a plain object finds under their names when the object has no own property of
  that name: \<open>JInherited n\<close> is the member named \<open>n\<close>. Numbers are integers (the
  only numbers the code computes with are schema versions). An object is an association
  list of its own properties in insertion order, and the statements below read objects
  through \<open>map_of\<close>, so that the order plays no role. Writing a property is modelled
  for ordinary names; that an assignment to the name \<^verbatim>\<open>__proto__\<close> sets the prototype
  instead is outside the model.
\<close>

datatype jsval =
    JUndefined
  | JNull
  | JBool bool
  | JNum int
  | JStr string
  | JArr "jsval list"
  | JObj "(string \<times> jsval) list"
  | JInherited string

text \<open>\<^verbatim>\<open>x == null\<close>: true for \<^verbatim>\<open>null\<close> and \<^verbatim>\<open>undefined\<close> only.\<close>

fun nullish :: "jsval \<Rightarrow> bool" where
  "nullish JUndefined = True"
| "nullish JNull = True"
| "nullish _ = False"

text \<open>\<^verbatim>\<open>a ?? b\<close>\<close>

definition coalesce :: "jsval \<Rightarrow> jsval \<Rightarrow> jsval" where
  "coalesce a b = (if nullish a then b else a)"

text \<open>\<^verbatim>\<open>typeof x\<close>\<close>

fun js_typeof :: "jsval \<Rightarrow> string" where
  "js_typeof JUndefined = ''undefined''"
| "js_typeof JNull = ''object''"
| "js_typeof (JBool _) = ''boolean''"
| "js_typeof (JNum _) = ''number''"
| "js_typeof (JStr _) = ''string''"
| "js_typeof (JArr _) = ''object''"
| "js_typeof (JObj _) = ''object''"
| "js_typeof (JInherited n) = (if n = ''__proto__'' then ''object'' else ''function'')"

text \<open>\<^verbatim>\<open>Array.isArray(x)\<close>\<close>

fun isArray :: "jsval \<Rightarrow> bool" where
  "isArray (JArr _) = True"
| "isArray _ = False"

text \<open>Decimal rendering of an array index, as JavaScript names index properties.\<close>

fun digit_char :: "nat \<Rightarrow> char" where
  "digit_char n = char_of (48 + n)"

function index_name :: "nat \<Rightarrow> string" where
  "index_name n = (if n < 10 then [digit_char n] else index_name (n div 10) @ [digit_char (n mod 10)])"
  by pat_completeness auto
termination
  by (relation "measure id") auto

text \<open>
  The own enumerable properties of a value, as \<^verbatim>\<open>{...x}\<close> copies them: those of an
  object, the indexed elements of an array, the indexed characters of a string, and none
  for \<^verbatim>\<open>null\<close>, \<^verbatim>\<open>undefined\<close>, booleans, numbers and the members of
  \<^verbatim>\<open>Object.prototype\<close>.
\<close>

fun own_properties :: "jsval \<Rightarrow> (string \<times> jsval) list" where
  "own_properties (JObj fs) = fs"
| "own_properties (JArr xs) = zip (map index_name [0..<length xs]) xs"
| "own_properties (JStr s) = zip (map index_name [0..<length s]) (map (\<lambda>c. JStr [c]) s)"
| "own_properties _ = []"

text \<open>
  The names of the members of \<^verbatim>\<open>Object.prototype\<close>. All are functions, but
  \<^verbatim>\<open>__proto__\<close>, which reads as \<^verbatim>\<open>Object.prototype\<close> itself.
\<close>

definition object_prototype :: "string list" where
  "object_prototype =
     [''constructor'', ''__defineGetter__'', ''__defineSetter__'', ''hasOwnProperty'',
      ''__lookupGetter__'', ''__lookupSetter__'', ''isPrototypeOf'', ''propertyIsEnumerable'',
      ''toString'', ''valueOf'', ''__proto__'', ''toLocaleString'']"

text \<open>
  \<^verbatim>\<open>o[k]\<close> on a plain object given by its own properties: the own property if there is
  one, else the member of \<^verbatim>\<open>Object.prototype\<close> of that name if there is one, else
  \<^verbatim>\<open>undefined\<close>.
\<close>

definition get_member :: "(string \<times> jsval) list \<Rightarrow> string \<Rightarrow> jsval" where
  "get_member fs k =
     (case map_of fs k of
        Some v \<Rightarrow> v
      | None \<Rightarrow> if k \<in> set object_prototype then JInherited k else JUndefined)"

text \<open>
  \<^verbatim>\<open>meta?.v\<close>: \<^verbatim>\<open>undefined\<close> for \<^verbatim>\<open>null\<close> and \<^verbatim>\<open>undefined\<close>, the property
  \<^verbatim>\<open>v\<close> of an object, and \<^verbatim>\<open>undefined\<close> for every other value (no array, string,
  number, boolean or function has a property of this name).
\<close>

fun version_field :: "jsval \<Rightarrow> jsval" where
  "version_field (JObj fs) = get_member fs ''v''"
| "version_field _ = JUndefined"

section \<open>Errors\<close>

text \<open>
  Every \<^verbatim>\<open>throw\<close> of the source is a constructor. \<open>TypeError\<close> and
  \<open>RangeError\<close> are the errors the JavaScript runtime raises by itself (for instance
  \<^verbatim>\<open>Object.entries(null)\<close>, a call of something that is no function, an array length
  that is too large). \<open>MigrationError\<close> is whatever a user-supplied migration function
  throws.
\<close>

datatype StorageArea = Local | Session | Sync | Managed

datatype error =
    InvalidArea string
  | MalformedKey string
  | NotExtensionEnvironment
  | MissingStoragePermission
  | AreaUndefined StorageArea
  | VersionBelowOne
  | VersionDowngrade int int string
  | MigrationError string
  | TypeError
  | RangeError

section \<open>Key router\<close>

fun area_name :: "StorageArea \<Rightarrow> string" where
  "area_name Local = ''local''"
| "area_name Session = ''session''"
| "area_name Sync = ''sync''"
| "area_name Managed = ''managed''"

text \<open>
  What \<^verbatim>\<open>drivers[area]\<close> finds in the table \<^verbatim>\<open>drivers\<close> of \<^verbatim>\<open>createStorage\<close>: the
  driver of one of the four areas, or, the table being a plain object, a member of
  \<^verbatim>\<open>Object.prototype\<close>, which is no driver, or nothing.
\<close>

datatype driver_value = Driver StorageArea | InheritedMember string

definition drivers :: "string \<Rightarrow> driver_value option" where
  "drivers a =
     (if a = ''local'' then Some (Driver Local)
      else if a = ''session'' then Some (Driver Session)
      else if a = ''sync'' then Some (Driver Sync)
      else if a = ''managed'' then Some (Driver Managed)
      else if a \<in> set object_prototype then Some (InheritedMember a)
      else None)"

definition getDriver :: "string \<Rightarrow> error + driver_value" where
  "getDriver area = (case drivers area of None \<Rightarrow> Inl (InvalidArea area) | Some driver \<Rightarrow> Inr driver)"

text \<open>\<^verbatim>\<open>s.indexOf(c)\<close>: the first position of the character, \<open>-1\<close> when there is none.\<close>

fun indexOf :: "string \<Rightarrow> char \<Rightarrow> int" where
  "indexOf [] c = -1"
| "indexOf (x # xs) c = (if x = c then 0 else (let i = indexOf xs c in if i < 0 then -1 else i + 1))"

text \<open>
  \<^verbatim>\<open>s.substring(start, end)\<close>: both arguments are clamped to \<open>0..length s\<close> and
  swapped when the first exceeds the second.
\<close>

definition substring :: "string \<Rightarrow> int \<Rightarrow> int \<Rightarrow> string" where
  "substring s start end =
     (let n = int (length s);
          a = max 0 (min start n);
          b = max 0 (min end n);
          lo = min a b;
          hi = max a b
      in take (nat (hi - lo)) (drop (nat lo) s))"

text \<open>\<^verbatim>\<open>s.substring(start)\<close>\<close>

definition substring_from :: "string \<Rightarrow> int \<Rightarrow> string" where
  "substring_from s start = substring s start (int (length s))"

record resolved_key =
  driverArea :: string
  driverKey :: string
  driver :: driver_value

text \<open>
  \<^verbatim>\<open>resolveKey\<close>. The test \<^verbatim>\<open>driverKey == null\<close> is kept as the source has it; it is
  applied to the string that \<^verbatim>\<open>substring\<close> returned.
\<close>

definition resolveKey :: "string \<Rightarrow> error + resolved_key" where
  "resolveKey key =
     (let deliminatorIndex = indexOf key CHR '':'';
          dArea = substring key 0 deliminatorIndex;
          dKey = substring_from key (deliminatorIndex + 1)
      in if nullish (JStr dKey) then Inl (MalformedKey key)
         else (case getDriver dArea of
                 Inl e \<Rightarrow> Inl e
               | Inr d \<Rightarrow> Inr \<lparr>driverArea = dArea, driverKey = dKey, driver = d\<rparr>))"

definition getMetaKey :: "string \<Rightarrow> string" where
  "getMetaKey key = key @ ''$''"

definition getValueOrFallback :: "jsval \<Rightarrow> jsval \<Rightarrow> jsval" where
  "getValueOrFallback value fallback = coalesce (coalesce value fallback) JNull"

definition getMetaValue :: "jsval \<Rightarrow> jsval" where
  "getMetaValue properties =
     (if js_typeof properties = ''object'' \<and> \<not> isArray properties then properties else JObj [])"

section \<open>The host's storage areas\<close>

text \<open>
  \<^verbatim>\<open>browser.storage[area]\<close> is the host's key-value store of one area; it is not part
  of the repository. It is modelled as an association list from keys to the values stored,
  with the calls the host documents: \<^verbatim>\<open>get(key)\<close>, \<^verbatim>\<open>get(keys)\<close> and \<^verbatim>\<open>get()\<close>
  return a plain object whose own properties are the requested keys that are stored,
  \<^verbatim>\<open>set(object)\<close> stores every property of its argument, \<^verbatim>\<open>remove\<close> deletes keys.
  JSON values are stored as they are given (what the host makes of a function handed to it
  is not modelled: the model keeps it, the statements below say nothing about it). The record \<open>browser\<close> is the state all operations pass along: whether
  \<^verbatim>\<open>browser.runtime\<close> and \<^verbatim>\<open>browser.storage\<close> exist, the contents of each area
  (\<open>None\<close> when \<^verbatim>\<open>browser.storage[area]\<close> is undefined), and the log of the calls
  made on the areas so far, oldest first.
\<close>

type_synonym area_store = "(string \<times> jsval) list"

datatype area_call =
    GetKey string
  | GetKeys "string list"
  | GetAll
  | SetItems "(string \<times> jsval) list"
  | RemoveKey string

record browser =
  runtime :: bool
  storage_api :: bool
  areas :: "StorageArea \<Rightarrow> area_store option"
  calls :: "(StorageArea \<times> area_call) list"

text \<open>The own properties of the object that \<^verbatim>\<open>get(key)\<close> and \<^verbatim>\<open>get(keys)\<close> return.\<close>

definition area_get_key :: "area_store \<Rightarrow> string \<Rightarrow> (string \<times> jsval) list" where
  "area_get_key st key = (case map_of st key of Some v \<Rightarrow> [(key, v)] | None \<Rightarrow> [])"

definition area_get_keys :: "area_store \<Rightarrow> string list \<Rightarrow> (string \<times> jsval) list" where
  "area_get_keys st keys =
     List.map_filter (\<lambda>k. map_option (Pair k) (map_of st k)) (remdups keys)"

definition area_get_all :: "area_store \<Rightarrow> jsval" where
  "area_get_all st = JObj st"

definition area_set :: "area_store \<Rightarrow> (string \<times> jsval) list \<Rightarrow> area_store" where
  "area_set st entries = fold (\<lambda>(k, v) acc. AList.update k v acc) entries st"

definition area_remove :: "area_store \<Rightarrow> string \<Rightarrow> area_store" where
  "area_remove st key = AList.delete key st"

section \<open>Area driver\<close>

text \<open>\<^verbatim>\<open>getStorageArea\<close> of \<^verbatim>\<open>createDriver\<close>, with its three errors.\<close>

definition getStorageArea :: "StorageArea \<Rightarrow> browser \<Rightarrow> error + area_store" where
  "getStorageArea storageArea b =
     (if \<not> runtime b then Inl NotExtensionEnvironment
      else if \<not> storage_api b then Inl MissingStoragePermission
      else (case areas b storageArea of
              None \<Rightarrow> Inl (AreaUndefined storageArea)
            | Some area \<Rightarrow> Inr area))"

text \<open>
  A method of what the table gave as the driver, making one call on the driver's area. On
  a member of \<^verbatim>\<open>Object.prototype\<close> the method is undefined and calling it throws a
  \<^verbatim>\<open>TypeError\<close>. On a driver the call fails when \<^verbatim>\<open>getStorageArea()\<close> throws, and
  otherwise computes a result and the area's new contents, and is logged.
\<close>

definition area_call ::
  "driver_value \<Rightarrow> area_call \<Rightarrow> (area_store \<Rightarrow> 'a \<times> area_store) \<Rightarrow> browser \<Rightarrow> (error + 'a) \<times> browser" where
  "area_call d c f b =
     (case d of
        InheritedMember n \<Rightarrow> (Inl TypeError, b)
      | Driver storageArea \<Rightarrow>
          (case getStorageArea storageArea b of
             Inl e \<Rightarrow> (Inl e, b)
           | Inr st \<Rightarrow>
               (case f st of
                  (r, st') \<Rightarrow>
                    (Inr r, b\<lparr>areas := (areas b)(storageArea := Some st'),
                              calls := calls b @ [(storageArea, c)]\<rparr>))))"

definition driver_getItem :: "driver_value \<Rightarrow> string \<Rightarrow> browser \<Rightarrow> (error + jsval) \<times> browser" where
  "driver_getItem d key = area_call d (GetKey key) (\<lambda>st. (get_member (area_get_key st key) key, st))"

definition driver_getItems ::
  "driver_value \<Rightarrow> string list \<Rightarrow> browser \<Rightarrow> (error + (string \<times> jsval) list) \<times> browser" where
  "driver_getItems d keys =
     area_call d (GetKeys keys)
       (\<lambda>st. (let result = area_get_keys st keys
               in map (\<lambda>key. (key, coalesce (get_member result key) JNull)) keys, st))"

definition driver_setItem :: "driver_value \<Rightarrow> string \<Rightarrow> jsval \<Rightarrow> browser \<Rightarrow> (error + unit) \<times> browser" where
  "driver_setItem d key value =
     (if nullish value then area_call d (RemoveKey key) (\<lambda>st. ((), area_remove st key))
      else area_call d (SetItems [(key, value)]) (\<lambda>st. ((), area_set st [(key, value)])))"

definition driver_setItems ::
  "driver_value \<Rightarrow> (string \<times> jsval) list \<Rightarrow> browser \<Rightarrow> (error + unit) \<times> browser" where
  "driver_setItems d values =
     (let m = fold (\<lambda>(key, value) acc. AList.update key value acc) values []
      in area_call d (SetItems m) (\<lambda>st. ((), area_set st m)))"

definition driver_snapshot :: "driver_value \<Rightarrow> browser \<Rightarrow> (error + jsval) \<times> browser" where
  "driver_snapshot d = area_call d GetAll (\<lambda>st. (area_get_all st, st))"

section \<open>Values and metadata of one key\<close>

record GetItemOptions =
  defaultValue :: jsval
  fallback :: jsval

text \<open>\<^verbatim>\<open>opts?.fallback ?? opts?.defaultValue\<close>, with \<open>None\<close> for an undefined \<^verbatim>\<open>opts\<close>.\<close>

definition opts_fallback :: "'a GetItemOptions_scheme option \<Rightarrow> jsval" where
  "opts_fallback opts =
     coalesce (case opts of None \<Rightarrow> JUndefined | Some o1 \<Rightarrow> fallback o1)
              (case opts of None \<Rightarrow> JUndefined | Some o2 \<Rightarrow> defaultValue o2)"

definition getItem ::
  "driver_value \<Rightarrow> string \<Rightarrow> 'a GetItemOptions_scheme option \<Rightarrow> browser \<Rightarrow> (error + jsval) \<times> browser" where
  "getItem d dKey opts b =
     (case driver_getItem d dKey b of
        (Inl e, b') \<Rightarrow> (Inl e, b')
      | (Inr res, b') \<Rightarrow> (Inr (getValueOrFallback res (opts_fallback opts)), b'))"

definition getMeta :: "driver_value \<Rightarrow> string \<Rightarrow> browser \<Rightarrow> (error + jsval) \<times> browser" where
  "getMeta d dKey b =
     (let metaKey = getMetaKey dKey
      in case driver_getItem d metaKey b of
           (Inl e, b') \<Rightarrow> (Inl e, b')
         | (Inr res, b') \<Rightarrow> (Inr (getMetaValue res), b'))"

definition setItem :: "driver_value \<Rightarrow> string \<Rightarrow> jsval \<Rightarrow> browser \<Rightarrow> (error + unit) \<times> browser" where
  "setItem d dKey value = driver_setItem d dKey (coalesce value JNull)"

text \<open>
  \<^verbatim>\<open>Object.entries(x)\<close> throws a \<^verbatim>\<open>TypeError\<close> on \<^verbatim>\<open>null\<close> and \<^verbatim>\<open>undefined\<close>.
\<close>

definition object_entries :: "jsval \<Rightarrow> error + (string \<times> jsval) list" where
  "object_entries x = (if nullish x then Inl TypeError else Inr (own_properties x))"

text \<open>The body of the \<^verbatim>\<open>forEach\<close> of \<^verbatim>\<open>setMeta\<close>, on the fields collected so far.\<close>

definition merge_field :: "string \<times> jsval \<Rightarrow> (string \<times> jsval) list \<Rightarrow> (string \<times> jsval) list" where
  "merge_field kv newFields =
     (case kv of (key, value) \<Rightarrow>
        if nullish value then AList.delete key newFields else AList.update key value newFields)"

definition setMeta :: "driver_value \<Rightarrow> string \<Rightarrow> jsval \<Rightarrow> browser \<Rightarrow> (error + unit) \<times> browser" where
  "setMeta d dKey properties b =
     (let metaKey = getMetaKey dKey
      in case driver_getItem d metaKey b of
           (Inl e, b') \<Rightarrow> (Inl e, b')
         | (Inr res, b') \<Rightarrow>
             (let existingFields = getMetaValue res;
                  newFields = own_properties existingFields
              in case object_entries properties of
                   Inl e \<Rightarrow> (Inl e, b')
                 | Inr entries \<Rightarrow> driver_setItem d metaKey (JObj (fold merge_field entries newFields)) b'))"

section \<open>The public single-key operations and the snapshot\<close>

definition storage_getItem ::
  "string \<Rightarrow> 'a GetItemOptions_scheme option \<Rightarrow> browser \<Rightarrow> (error + jsval) \<times> browser" where
  "storage_getItem key opts b =
     (case resolveKey key of
        Inl e \<Rightarrow> (Inl e, b)
      | Inr r \<Rightarrow> getItem (driver r) (driverKey r) opts b)"

definition storage_setItem :: "string \<Rightarrow> jsval \<Rightarrow> browser \<Rightarrow> (error + unit) \<times> browser" where
  "storage_setItem key value b =
     (case resolveKey key of
        Inl e \<Rightarrow> (Inl e, b)
      | Inr r \<Rightarrow> setItem (driver r) (driverKey r) value b)"

definition storage_getMeta :: "string \<Rightarrow> browser \<Rightarrow> (error + jsval) \<times> browser" where
  "storage_getMeta key b =
     (case resolveKey key of
        Inl e \<Rightarrow> (Inl e, b)
      | Inr r \<Rightarrow> getMeta (driver r) (driverKey r) b)"

definition storage_setMeta :: "string \<Rightarrow> jsval \<Rightarrow> browser \<Rightarrow> (error + unit) \<times> browser" where
  "storage_setMeta key properties b =
     (case resolveKey key of
        Inl e \<Rightarrow> (Inl e, b)
      | Inr r \<Rightarrow> setMeta (driver r) (driverKey r) properties b)"

record SnapshotOptions =
  excludeKeys :: "string list option"

text \<open>\<^verbatim>\<open>delete data[key]\<close> on the object a snapshot returns.\<close>

fun delete_prop :: "string \<Rightarrow> jsval \<Rightarrow> jsval" where
  "delete_prop key (JObj fs) = JObj (AList.delete key fs)"
| "delete_prop key x = x"

text \<open>
  The keys that \<^verbatim>\<open>opts?.excludeKeys?.forEach\<close> visits: none when \<^verbatim>\<open>opts\<close> or its
  \<^verbatim>\<open>excludeKeys\<close> is undefined.
\<close>

definition opt_excludeKeys :: "SnapshotOptions option \<Rightarrow> string list" where
  "opt_excludeKeys opts =
     (case opts of
        None \<Rightarrow> []
      | Some o1 \<Rightarrow> (case excludeKeys o1 of None \<Rightarrow> [] | Some ks \<Rightarrow> ks))"

definition snapshot :: "string \<Rightarrow> SnapshotOptions option \<Rightarrow> browser \<Rightarrow> (error + jsval) \<times> browser" where
  "snapshot base opts b =
     (case getDriver base of
        Inl e \<Rightarrow> (Inl e, b)
      | Inr d \<Rightarrow>
          (case driver_snapshot d b of
             (Inl e, b') \<Rightarrow> (Inl e, b')
           | (Inr data, b') \<Rightarrow>
               (Inr (fold (\<lambda>key acc. delete_prop (getMetaKey key) (delete_prop key acc))
                       (opt_excludeKeys opts) data), b')))"

section \<open>Defined items and their migration\<close>

text \<open>
  A migration function may throw; it is a function to \<open>error + jsval\<close>. The table
  \<^verbatim>\<open>migrations\<close> maps a version to its function, \<open>None\<close> where the table has none.
\<close>

type_synonym migration_table = "int \<Rightarrow> (jsval \<Rightarrow> error + jsval) option"

record WxtStorageItemOptions = GetItemOptions +
  version :: "int option"
  migrations :: "migration_table option"

record defined_item =
  item_key :: string
  item_driver :: driver_value
  item_driverKey :: string
  targetVersion :: int
  item_migrations :: migration_table
  item_opts :: "WxtStorageItemOptions option"

text \<open>
  \<^verbatim>\<open>defineItem\<close>, as far as it decides what \<^verbatim>\<open>migrate\<close> works with: the key is
  resolved, the target version defaults to 1 and must not be below 1, the table of
  migrations defaults to the empty one. (When migrations are given, the source also starts
  \<^verbatim>\<open>migrate()\<close> at once; that is the function below, run on the state of that moment.)
\<close>

definition defineItem :: "string \<Rightarrow> WxtStorageItemOptions option \<Rightarrow> error + defined_item" where
  "defineItem key opts =
     (case resolveKey key of
        Inl e \<Rightarrow> Inl e
      | Inr r \<Rightarrow>
          (let tv = (case opts of None \<Rightarrow> 1 | Some o1 \<Rightarrow> (case version o1 of None \<Rightarrow> 1 | Some n \<Rightarrow> n));
               ms = (case opts of None \<Rightarrow> (\<lambda>_. None)
                     | Some o2 \<Rightarrow> (case migrations o2 of None \<Rightarrow> (\<lambda>_. None) | Some t \<Rightarrow> t))
           in if tv < 1 then Inl VersionBelowOne
              else Inr \<lparr>item_key = key, item_driver = driver r, item_driverKey = driverKey r,
                        targetVersion = tv, item_migrations = ms, item_opts = opts\<rparr>))"

text \<open>\<^verbatim>\<open>getFallback\<close> of a defined item.\<close>

definition getFallback :: "WxtStorageItemOptions option \<Rightarrow> jsval" where
  "getFallback opts = coalesce (opts_fallback opts) JNull"

text \<open>
  \<^verbatim>\<open>Array.from({ length: targetVersion - currentVersion }, (_, i) => currentVersion + i + 1)\<close>.
  A length of \<open>2\<^sup>3\<^sup>2\<close> or more makes \<^verbatim>\<open>Array.from\<close> throw a \<^verbatim>\<open>RangeError\<close>; a
  negative length gives the empty array. The additions are those of JavaScript's numbers:
  they are the additions of integers when the versions lie between \<open>-2\<^sup>5\<^sup>3\<close> and
  \<open>2\<^sup>5\<^sup>3\<close>, and for these the embedding gives the array; for others it gives no result
  (\<open>None\<close>), which says that the run is outside the embedding, not what the source does.
\<close>

definition migrationsToRun :: "int \<Rightarrow> int \<Rightarrow> (error + int list) option" where
  "migrationsToRun cv tv =
     (if tv - cv \<ge> 2 ^ 32 then Some (Inl RangeError)
      else if - (2 ^ 53) \<le> cv \<and> tv \<le> 2 ^ 53
      then Some (Inr (map (\<lambda>i. cv + int i + 1) [0..<nat (tv - cv)]))
      else None)"

text \<open>
  The \<^verbatim>\<open>for\<close> loop of \<^verbatim>\<open>migrate\<close>:
  \<^verbatim>\<open>migratedValue = (await migrations?.[v]?.(migratedValue)) ?? migratedValue\<close>.
\<close>

fun run_migrations :: "migration_table \<Rightarrow> int list \<Rightarrow> jsval \<Rightarrow> error + jsval" where
  "run_migrations ms [] migratedValue = Inr migratedValue"
| "run_migrations ms (migrateToVersion # rest) migratedValue =
     (case ms migrateToVersion of
        None \<Rightarrow> run_migrations ms rest (coalesce JUndefined migratedValue)
      | Some f \<Rightarrow>
          (case f migratedValue of
             Inl e \<Rightarrow> Inl e
           | Inr r \<Rightarrow> run_migrations ms rest (coalesce r migratedValue)))"

text \<open>\<^verbatim>\<open>const currentVersion = meta?.v ?? 1\<close>\<close>

definition currentVersion :: "jsval \<Rightarrow> jsval" where
  "currentVersion meta = coalesce (version_field meta) (JNum 1)"

text \<open>
  The array of the versions and the loop over it; \<open>None\<close> where \<open>migrationsToRun\<close>
  gives no result.
\<close>

definition migration_loop :: "migration_table \<Rightarrow> int \<Rightarrow> int \<Rightarrow> jsval \<Rightarrow> (error + jsval) option" where
  "migration_loop ms cv tv value =
     (case migrationsToRun cv tv of
        None \<Rightarrow> None
      | Some (Inl e) \<Rightarrow> Some (Inl e)
      | Some (Inr versions) \<Rightarrow> Some (run_migrations ms versions value))"

text \<open>
  \<^verbatim>\<open>migrate\<close>. The comparison and the arithmetic on the current version are modelled
  for a current version that is a number. On any other value JavaScript converts (a string
  to a floating-point number, for instance) and goes on; for such a stored version the
  embedding gives no result (\<open>None\<close>), which again says that the run is outside the
  embedding. Every result \<open>Some\<close> is what the source does: the outcome of the call and
  the state of the host after it.
\<close>

definition migrate :: "defined_item \<Rightarrow> browser \<Rightarrow> ((error + unit) \<times> browser) option" where
  "migrate it b =
     (let driverMetaKey = getMetaKey (item_driverKey it)
      in case driver_getItems (item_driver it) [item_driverKey it, driverMetaKey] b of
           (Inl e, b1) \<Rightarrow> Some (Inl e, b1)
         | (Inr res, b1) \<Rightarrow>
             (case res of
                [(k1, value), (k2, meta)] \<Rightarrow>
                  if nullish value then Some (Inr (), b1)
                  else (case currentVersion meta of
                          JNum cv \<Rightarrow>
                            if cv > targetVersion it
                            then Some (Inl (VersionDowngrade cv (targetVersion it) (item_key it)), b1)
                            else (case migration_loop (item_migrations it) cv (targetVersion it) value of
                                    None \<Rightarrow> None
                                  | Some (Inl e) \<Rightarrow> Some (Inl e, b1)
                                  | Some (Inr migratedValue) \<Rightarrow>
                                      Some (driver_setItems (item_driver it)
                                        [(item_driverKey it, migratedValue),
                                         (driverMetaKey,
                                          JObj (AList.update ''v'' (JNum (targetVersion it))
                                                  (own_properties meta)))] b1))
                        | _ \<Rightarrow> None)
              | _ \<Rightarrow> Some (Inl TypeError, b1)))"

section \<open>Batched reads\<close>

text \<open>
  An entry of the list given to \<^verbatim>\<open>getItems\<close>: a key, a defined item, or a key with
  options.
\<close>

datatype getItems_key =
    KeyString string
  | KeyItem defined_item
  | KeyWithOptions string "GetItemOptions option"

text \<open>The \<^verbatim>\<open>keyStr\<close> and \<^verbatim>\<open>opts\<close> that the first loop of \<^verbatim>\<open>getItems\<close> reads off an entry.\<close>

fun getItems_entry :: "getItems_key \<Rightarrow> string \<times> GetItemOptions option" where
  "getItems_entry (KeyString key) = (key, None)"
| "getItems_entry (KeyItem it) =
     (item_key it, Some \<lparr>defaultValue = JUndefined, fallback = getFallback (item_opts it)\<rparr>)"
| "getItems_entry (KeyWithOptions key opts) = (key, opts)"

text \<open>
  The three collections the first loop fills: \<^verbatim>\<open>areaToKeyMap\<close>, \<^verbatim>\<open>keyToOptsMap\<close>
  (both \<^verbatim>\<open>Map\<close>s, kept in insertion order) and \<^verbatim>\<open>orderedKeys\<close>.
\<close>

record getItems_acc =
  areaToKeyMap :: "(string \<times> string list) list"
  keyToOptsMap :: "(string \<times> GetItemOptions option) list"
  orderedKeys :: "string list"

fun getItems_collect :: "getItems_key list \<Rightarrow> getItems_acc \<Rightarrow> error + getItems_acc" where
  "getItems_collect [] acc = Inr acc"
| "getItems_collect (key # rest) acc =
     (case getItems_entry key of
        (keyStr, opts) \<Rightarrow>
          (case resolveKey keyStr of
             Inl e \<Rightarrow> Inl e
           | Inr r \<Rightarrow>
               (let areaKeys = (case map_of (areaToKeyMap acc) (driverArea r) of
                                  Some ks \<Rightarrow> ks | None \<Rightarrow> [])
                in getItems_collect rest
                     \<lparr>areaToKeyMap = AList.update (driverArea r) (areaKeys @ [driverKey r]) (areaToKeyMap acc),
                      keyToOptsMap = AList.update keyStr opts (keyToOptsMap acc),
                      orderedKeys = orderedKeys acc @ [keyStr]\<rparr>)))"

text \<open>
  \<^verbatim>\<open>Promise.all(xs.map(f))\<close>: every call is started, in order; the result is the list
  of the results, or the error of the first call that failed.
\<close>

fun promise_all ::
  "('x \<Rightarrow> browser \<Rightarrow> (error + 'y) \<times> browser) \<Rightarrow> 'x list \<Rightarrow> browser \<Rightarrow> (error + 'y list) \<times> browser" where
  "promise_all f [] b = (Inr [], b)"
| "promise_all f (x # xs) b =
     (case f x b of
        (r, b1) \<Rightarrow>
          (case promise_all f xs b1 of
             (rs, b2) \<Rightarrow>
               ((case r of
                   Inl e \<Rightarrow> Inl e
                 | Inr y \<Rightarrow> (case rs of Inl e' \<Rightarrow> Inl e' | Inr ys \<Rightarrow> Inr (y # ys))), b2)))"

text \<open>
  The callback run for one area: one \<^verbatim>\<open>getItems\<close> call on the area's driver, then the
  entries it puts into \<^verbatim>\<open>resultsMap\<close>, in order.
\<close>

definition getItems_area ::
  "(string \<times> GetItemOptions option) list \<Rightarrow> string \<times> string list \<Rightarrow> browser
     \<Rightarrow> (error + (string \<times> jsval) list) \<times> browser" where
  "getItems_area k2o entry b =
     (case entry of
        (dArea, keys) \<Rightarrow>
          (case drivers dArea of
             None \<Rightarrow> (Inl TypeError, b)
           | Some d \<Rightarrow>
               (case driver_getItems d keys b of
                  (Inl e, b') \<Rightarrow> (Inl e, b')
                | (Inr driverResults, b') \<Rightarrow>
                    (Inr (map (\<lambda>driverResult.
                                 (let key = dArea @ '':'' @ fst driverResult;
                                      opts = (case map_of k2o key of Some o1 \<Rightarrow> o1 | None \<Rightarrow> None)
                                  in (key, getValueOrFallback (snd driverResult) (opts_fallback opts))))
                            driverResults), b'))))"

text \<open>
  \<^verbatim>\<open>getItems\<close>. The entries of the areas are put into \<^verbatim>\<open>resultsMap\<close> area after
  area; their keys differ from one area to the next.
\<close>

definition getItems ::
  "getItems_key list \<Rightarrow> browser \<Rightarrow> (error + (string \<times> jsval) list) \<times> browser" where
  "getItems keys b =
     (case getItems_collect keys \<lparr>areaToKeyMap = [], keyToOptsMap = [], orderedKeys = []\<rparr> of
        Inl e \<Rightarrow> (Inl e, b)
      | Inr acc \<Rightarrow>
          (case promise_all (getItems_area (keyToOptsMap acc)) (areaToKeyMap acc) b of
             (Inl e, b') \<Rightarrow> (Inl e, b')
           | (Inr batches, b') \<Rightarrow>
               (let resultsMap = fold (\<lambda>(key, value) m. AList.update key value m) (concat batches) []
                in (Inr (map (\<lambda>key. (key, (case map_of resultsMap key of
                                               Some v \<Rightarrow> v | None \<Rightarrow> JUndefined)))
                           (orderedKeys acc)), b'))))"

section \<open>Notions used to state the properties\<close>

text \<open>The host's storage of an area can be reached: \<^verbatim>\<open>getStorageArea()\<close> does not throw.\<close>

definition available :: "browser \<Rightarrow> StorageArea \<Rightarrow> bool" where
  "available b d = (runtime b \<and> storage_api b \<and> areas b d \<noteq> None)"

text \<open>The value an area holds under a key, \<^verbatim>\<open>null\<close> when it holds none.\<close>

definition stored :: "browser \<Rightarrow> StorageArea \<Rightarrow> string \<Rightarrow> jsval" where
  "stored b d key =
     (case areas b d of
        None \<Rightarrow> JNull
      | Some st \<Rightarrow> (case map_of st key of None \<Rightarrow> JNull | Some v \<Rightarrow> coalesce v JNull))"

text \<open>
  What the driver's \<^verbatim>\<open>getItems\<close> reports for a key: the value the area holds; when it
  holds none, the member of \<^verbatim>\<open>Object.prototype\<close> named like the key, if there is one,
  and \<^verbatim>\<open>null\<close> otherwise.
\<close>

definition reported :: "browser \<Rightarrow> StorageArea \<Rightarrow> string \<Rightarrow> jsval" where
  "reported b d key =
     (case areas b d of
        None \<Rightarrow> JNull
      | Some st \<Rightarrow> coalesce (get_member st key) JNull)"



section \<open>Notions used to state the properties of batched reads\<close>

text \<open>
  The options \<^verbatim>\<open>keyToOptsMap\<close> holds for a key at the end of the first loop: those of
  the last entry of the list that has this key.
\<close>

definition getItems_opts :: "getItems_key list \<Rightarrow> string \<Rightarrow> GetItemOptions option" where
  "getItems_opts keys k = (case map_of (rev (map getItems_entry keys)) k of Some opts \<Rightarrow> opts | None \<Rightarrow> None)"

text \<open>
  The value \<^verbatim>\<open>getItems\<close> is to report for a key: what the driver of its area
  reports for its local key or, when that is \<^verbatim>\<open>null\<close>, the fallback of the options
  recorded for the key, or \<^verbatim>\<open>null\<close>.
\<close>

definition getItems_value :: "browser \<Rightarrow> getItems_key list \<Rightarrow> string \<Rightarrow> jsval" where
  "getItems_value b keys k =
     (case resolveKey k of
        Inl e \<Rightarrow> JUndefined
      | Inr r \<Rightarrow>
          (case driver r of
             InheritedMember n \<Rightarrow> JUndefined
           | Driver d \<Rightarrow> getValueOrFallback (reported b d (driverKey r))
                          (opts_fallback (getItems_opts keys k))))"

text \<open>The same with the options looked up in a given \<^verbatim>\<open>keyToOptsMap\<close>.\<close>

definition recorded_value :: "browser \<Rightarrow> (string \<times> GetItemOptions option) list \<Rightarrow> string \<Rightarrow> jsval" where
  "recorded_value b k2o k =
     (case resolveKey k of
        Inl e \<Rightarrow> JUndefined
      | Inr r \<Rightarrow>
          (case driver r of
             InheritedMember n \<Rightarrow> JUndefined
           | Driver d \<Rightarrow> getValueOrFallback (reported b d (driverKey r))
                          (opts_fallback (case map_of k2o k of Some o1 \<Rightarrow> o1 | None \<Rightarrow> None))))"

text \<open>The entries one area contributes to \<^verbatim>\<open>resultsMap\<close>.\<close>

definition area_batch ::
  "browser \<Rightarrow> (string \<times> GetItemOptions option) list \<Rightarrow> string \<times> string list \<Rightarrow> (string \<times> jsval) list" where
  "area_batch b k2o entry =
     (case entry of (a, ks) \<Rightarrow> map (\<lambda>rk. (a @ '':'' @ rk, recorded_value b k2o (a @ '':'' @ rk))) ks)"

text \<open>
  Two invariants of the first loop: a key that has been visited is found among the keys
  grouped under its area, and every area that has a group has a driver whose storage is
  available.
\<close>

definition covers :: "(string \<times> string list) list \<Rightarrow> string \<Rightarrow> bool" where
  "covers atk k = (\<exists>r ks. resolveKey k = Inr r \<and> map_of atk (driverArea r) = Some ks \<and> driverKey r \<in> set ks)"

definition reachable_areas :: "browser \<Rightarrow> (string \<times> string list) list \<Rightarrow> bool" where
  "reachable_areas b atk = (\<forall>(a, ks) \<in> set atk. \<exists>d. drivers a = Some (Driver d) \<and> available b d)"

section \<open>Concrete hosts and items\<close>

text \<open>
  A host whose local and session areas hold the given entries and which has no sync and no
  managed area; nothing has been called yet.
\<close>

definition example_browser :: "area_store \<Rightarrow> area_store \<Rightarrow> browser" where
  "example_browser l s =
     \<lparr>runtime = True, storage_api = True,
      areas = (\<lambda>a. case a of Local \<Rightarrow> Some l | Session \<Rightarrow> Some s | _ \<Rightarrow> None),
      calls = []\<rparr>"



text \<open>The tables \<^verbatim>\<open>{}\<close>, \<^verbatim>\<open>{ 2: v => [v] }\<close> and \<^verbatim>\<open>{ 2: v => null }\<close>.\<close>

definition no_migrations :: migration_table where
  "no_migrations n = None"



text \<open>
  The item that \<^verbatim>\<open>defineItem("local:k", { version, migrations })\<close> defines.
\<close>

definition example_opts :: "int \<Rightarrow> migration_table \<Rightarrow> WxtStorageItemOptions" where
  "example_opts tv ms =
     \<lparr>defaultValue = JUndefined, fallback = JUndefined, version = Some tv, migrations = Some ms\<rparr>"

definition example_item :: "int \<Rightarrow> migration_table \<Rightarrow> defined_item" where
  "example_item tv ms =
     \<lparr>item_key = ''local:k'', item_driver = Driver Local, item_driverKey = ''k'', targetVersion = tv,
      item_migrations = ms, item_opts = Some (example_opts tv ms)\<rparr>"


section \<open>The host and the driver: basic facts\<close>

lemma available_iff: "available b d \<longleftrightarrow> (\<exists>st. getStorageArea d b = Inr st)"
  by (auto simp: available_def getStorageArea_def split: option.splits)

lemma getStorageArea_Inr:
  "getStorageArea d b = Inr st \<longleftrightarrow> runtime b \<and> storage_api b \<and> areas b d = Some st"
  by (auto simp: getStorageArea_def split: option.splits)

lemma area_call_ok:
  "getStorageArea d b = Inr st \<Longrightarrow>
   area_call (Driver d) c f b =
     (Inr (fst (f st)), b\<lparr>areas := (areas b)(d := Some (snd (f st))), calls := calls b @ [(d, c)]\<rparr>)"
  by (simp add: area_call_def split: prod.splits)

lemma read_keeps_areas:
  "areas b d = Some st \<Longrightarrow> b\<lparr>areas := (areas b)(d := Some st), calls := cs\<rparr> = b\<lparr>calls := cs\<rparr>"
  by (cases b) (simp add: fun_upd_idem)

lemma map_of_map_filter_keys:
  "map_of (List.map_filter (\<lambda>k. map_option (Pair k) (m k)) ks) key = (if key \<in> set ks then m key else None)"
  by (induction ks) (auto simp: List.map_filter_simps split: option.splits)

text \<open>Reading a requested key off the host's result is reading it off the area.\<close>

lemma get_member_area_get_keys:
  "key \<in> set keys \<Longrightarrow> get_member (area_get_keys st keys) key = get_member st key"
  by (simp add: get_member_def area_get_keys_def map_of_map_filter_keys)

lemma get_member_area_get_key: "get_member (area_get_key st key) key = get_member st key"
  by (simp add: get_member_def area_get_key_def split: option.splits)

lemma reported_eq:
  "getStorageArea d b = Inr st \<Longrightarrow> reported b d key = coalesce (get_member st key) JNull"
  by (simp add: reported_def getStorageArea_Inr)

lemma stored_eq:
  "getStorageArea d b = Inr st \<Longrightarrow>
   stored b d key = (case map_of st key of None \<Rightarrow> JNull | Some v \<Rightarrow> coalesce v JNull)"
  by (simp add: stored_def getStorageArea_Inr)

text \<open>
  Where the area holds a value, and under every key that is no name of a member of
  \<^verbatim>\<open>Object.prototype\<close>, the driver reports what the area holds.
\<close>

lemma reported_stored_present: "\<not> nullish (stored b d key) \<Longrightarrow> reported b d key = stored b d key"
  by (auto simp: reported_def stored_def get_member_def split: option.splits)

lemma reported_stored_ordinary: "key \<notin> set object_prototype \<Longrightarrow> reported b d key = stored b d key"
  by (auto simp: reported_def stored_def get_member_def coalesce_def split: option.splits)

lemma object_prototype_last: "n \<in> set object_prototype \<Longrightarrow> last n \<noteq> CHR ''$''"
  by (auto simp: object_prototype_def)

lemma getMetaKey_ordinary: "getMetaKey k \<notin> set object_prototype"
  using object_prototype_last[of "getMetaKey k"] by (auto simp: getMetaKey_def)

lemma driver_getItems_ok:
  assumes "available b d"
  shows "driver_getItems (Driver d) keys b =
           (Inr (map (\<lambda>key. (key, reported b d key)) keys), b\<lparr>calls := calls b @ [(d, GetKeys keys)]\<rparr>)"
proof -
  from assms obtain st where st: "getStorageArea d b = Inr st"
    by (auto simp: available_iff)
  have "map (\<lambda>key. (key, coalesce (get_member (area_get_keys st keys) key) JNull)) keys
          = map (\<lambda>key. (key, reported b d key)) keys"
    by (rule map_cong) (simp_all add: get_member_area_get_keys reported_eq[OF st])
  with st show ?thesis
    by (simp add: driver_getItems_def area_call_ok Let_def read_keeps_areas getStorageArea_Inr)
qed

lemma driver_getItem_ok:
  "getStorageArea d b = Inr st \<Longrightarrow>
   driver_getItem (Driver d) key b =
     (Inr (get_member st key), b\<lparr>calls := calls b @ [(d, GetKey key)]\<rparr>)"
  by (simp add: driver_getItem_def area_call_ok get_member_area_get_key getStorageArea_Inr
      read_keeps_areas)

lemma getStorageArea_after:
  "getStorageArea d b = Inr st \<Longrightarrow>
   getStorageArea d (b\<lparr>areas := (areas b)(d := Some st'), calls := cs\<rparr>) = Inr st'"
  by (simp add: getStorageArea_Inr)

lemma get_member_metaKey:
  "get_member st (getMetaKey k) = (case map_of st (getMetaKey k) of Some v \<Rightarrow> v | None \<Rightarrow> JUndefined)"
  using getMetaKey_ordinary[of k] by (simp add: get_member_def)

lemma getMeta_ok:
  "getStorageArea d b = Inr st \<Longrightarrow>
   getMeta (Driver d) k b =
     (Inr (getMetaValue (case map_of st (getMetaKey k) of Some v \<Rightarrow> v | None \<Rightarrow> JUndefined)),
      b\<lparr>calls := calls b @ [(d, GetKey (getMetaKey k))]\<rparr>)"
  by (simp add: getMeta_def driver_getItem_ok Let_def get_member_metaKey)



section \<open>The examples are what they are said to be\<close>

lemma resolveKey_local_k:
  "resolveKey ''local:k'' = Inr \<lparr>driverArea = ''local'', driverKey = ''k'', driver = Driver Local\<rparr>"
  by (simp add: resolveKey_def substring_def substring_from_def getDriver_def drivers_def Let_def)

lemma defineItem_example:
  "1 \<le> tv \<Longrightarrow> defineItem ''local:k'' (Some (example_opts tv ms)) = Inr (example_item tv ms)"
  by (simp add: defineItem_def resolveKey_local_k example_opts_def example_item_def)

lemma example_available: "available (example_browser l s) Local"
  by (simp add: available_def example_browser_def)

lemma example_stored:
  "stored (example_browser l s) Local key = (case map_of l key of None \<Rightarrow> JNull | Some v \<Rightarrow> coalesce v JNull)"
  by (simp add: stored_def example_browser_def)

lemma example_item_simps:
  "item_driver (example_item tv ms) = Driver Local" "item_driverKey (example_item tv ms) = ''k''"
  "targetVersion (example_item tv ms) = tv" "item_migrations (example_item tv ms) = ms"
  "item_key (example_item tv ms) = ''local:k''"
  by (simp_all add: example_item_def)

lemma k_ordinary: "''k'' \<notin> set object_prototype"
  by (simp add: object_prototype_def)

section \<open>Migration\<close>







text \<open>What \<^verbatim>\<open>migrate\<close> does, one equation per outcome.\<close>

lemma migrate_absent:
  assumes "item_driver it = Driver d" and "available b d"
    and "nullish (reported b d (item_driverKey it))"
  shows "migrate it b =
     Some (Inr (), b\<lparr>calls := calls b @ [(d, GetKeys [item_driverKey it, getMetaKey (item_driverKey it)])]\<rparr>)"
  using assms by (simp add: migrate_def driver_getItems_ok Let_def)

lemma migrate_present:
  assumes "item_driver it = Driver d" and "available b d"
    and "\<not> nullish (stored b d (item_driverKey it))"
    and "currentVersion (stored b d (getMetaKey (item_driverKey it))) = JNum cv"
  shows "migrate it b =
     (let b1 = b\<lparr>calls := calls b @ [(d, GetKeys [item_driverKey it, getMetaKey (item_driverKey it)])]\<rparr>
      in if cv > targetVersion it
         then Some (Inl (VersionDowngrade cv (targetVersion it) (item_key it)), b1)
         else (case migration_loop (item_migrations it) cv (targetVersion it)
                     (stored b d (item_driverKey it)) of
                 None \<Rightarrow> None
               | Some (Inl e) \<Rightarrow> Some (Inl e, b1)
               | Some (Inr migratedValue) \<Rightarrow>
                   Some (driver_setItems (Driver d)
                     [(item_driverKey it, migratedValue),
                      (getMetaKey (item_driverKey it),
                       JObj (AList.update ''v'' (JNum (targetVersion it))
                              (own_properties (stored b d (getMetaKey (item_driverKey it))))))] b1)))"
  using assms
  by (simp add: migrate_def driver_getItems_ok Let_def reported_stored_present
      reported_stored_ordinary[OF getMetaKey_ordinary] split: option.splits sum.splits)



lemma example_getStorageArea: "getStorageArea Local (example_browser l s) = Inr l"
  by (simp add: getStorageArea_def example_browser_def)

lemma example_calls: "calls (example_browser l s) = []"
  by (simp add: example_browser_def)

section \<open>The claims about migration\<close>




text \<open>
  Claim C2, as the code has it. If the item has a driver whose area is available, a value
  is stored under the item's key and the stored version exceeds the target version, then
  \<^verbatim>\<open>migrate()\<close> fails with the version-downgrade error, and all it has done is its one
  read: the contents of the areas are as before and the log has gained the read only.
\<close>

theorem migrate_rejects_downgrade:
  assumes "item_driver it = Driver d" and "available b d"
    and "\<not> nullish (stored b d (item_driverKey it))"
    and "currentVersion (stored b d (getMetaKey (item_driverKey it))) = JNum cv"
    and "cv > targetVersion it"
  shows "migrate it b =
     Some (Inl (VersionDowngrade cv (targetVersion it) (item_key it)),
           b\<lparr>calls := calls b @
               [(d, GetKeys [item_driverKey it, getMetaKey (item_driverKey it)])]\<rparr>)"
  using assms(5) by (simp add: migrate_present[OF assms(1-4)] Let_def)

text \<open>
  Claim C2, witness: the value 1 stored with version 3, and an item with target version 1.
\<close>

theorem migrate_rejects_downgrade_witness:
  "item_driver (example_item 1 no_migrations) = Driver Local
   \<and> available (example_browser [(''k'', JNum 1), (''k$'', JObj [(''v'', JNum 3)])] []) Local
   \<and> \<not> nullish (stored (example_browser [(''k'', JNum 1), (''k$'', JObj [(''v'', JNum 3)])] []) Local ''k'')
   \<and> currentVersion (stored (example_browser [(''k'', JNum 1), (''k$'', JObj [(''v'', JNum 3)])] [])
                        Local (getMetaKey ''k'')) = JNum 3
   \<and> (3::int) > 1
   \<and> migrate (example_item 1 no_migrations)
        (example_browser [(''k'', JNum 1), (''k$'', JObj [(''v'', JNum 3)])] [])
      = Some (Inl (VersionDowngrade 3 1 ''local:k''),
              (example_browser [(''k'', JNum 1), (''k$'', JObj [(''v'', JNum 3)])] [])
                \<lparr>calls := [(Local, GetKeys [''k'', ''k$''])]\<rparr>)"
proof -
  let ?b = "example_browser [(''k'', JNum 1), (''k$'', JObj [(''v'', JNum 3)])] []"
  let ?it = "example_item 1 no_migrations"
  have h0: "item_driver ?it = Driver Local"
    by (simp add: example_item_simps)
  have h2: "\<not> nullish (stored ?b Local (item_driverKey ?it))"
    by (simp add: example_item_simps example_stored coalesce_def)
  have h3: "currentVersion (stored ?b Local (getMetaKey (item_driverKey ?it))) = JNum 3"
    by (simp add: example_item_simps example_stored getMetaKey_def currentVersion_def
        coalesce_def get_member_def)
  have h4: "3 > targetVersion ?it"
    by (simp add: example_item_simps)
  show ?thesis
    using migrate_rejects_downgrade[OF h0 example_available h2 h3 h4] h0 h2 h3
    by (simp add: example_item_simps getMetaKey_def example_calls example_available)
qed

text \<open>
  Claim C2, counterexample to the claim as stated, for every item whose stored version
  exceeds the target: when the metadata records version 3 and no value is stored under the
  key (as after the value alone has been removed), \<^verbatim>\<open>migrate()\<close> of an item with target
  version 1 returns without an error after its one read, since the test for a missing value
  comes first.
\<close>

theorem migrate_silent_when_value_absent:
  "available (example_browser [(''k$'', JObj [(''v'', JNum 3)])] []) Local
   \<and> currentVersion (stored (example_browser [(''k$'', JObj [(''v'', JNum 3)])] []) Local (getMetaKey ''k''))
       = JNum 3
   \<and> targetVersion (example_item 1 no_migrations) = 1
   \<and> migrate (example_item 1 no_migrations) (example_browser [(''k$'', JObj [(''v'', JNum 3)])] [])
       = Some (Inr (),
               (example_browser [(''k$'', JObj [(''v'', JNum 3)])] [])
                 \<lparr>calls := [(Local, GetKeys [''k'', ''k$''])]\<rparr>)"
proof -
  let ?b = "example_browser [(''k$'', JObj [(''v'', JNum 3)])] []"
  have dr: "item_driver (example_item 1 no_migrations) = Driver Local"
    by (simp add: example_item_simps)
  have n: "nullish (reported ?b Local (item_driverKey (example_item 1 no_migrations)))"
    by (simp add: example_item_simps reported_stored_ordinary[OF k_ordinary] example_stored)
  have cv: "currentVersion (stored ?b Local (getMetaKey ''k'')) = JNum 3"
    by (simp add: example_stored getMetaKey_def currentVersion_def coalesce_def get_member_def)
  show ?thesis
    using cv
    by (simp add: migrate_absent[OF dr example_available n] example_available example_item_simps
        getMetaKey_def example_calls)
qed



text \<open>
  Two runs the claims above leave aside. With nothing stored under a key that is the name
  of a member of \<^verbatim>\<open>Object.prototype\<close>, the read yields that member, which is not
  \<^verbatim>\<open>null\<close>, and \<^verbatim>\<open>migrate()\<close> goes on to its write. With a target \<open>2\<^sup>3\<^sup>2\<close> or more
  above the stored version, \<^verbatim>\<open>Array.from\<close> throws and \<^verbatim>\<open>migrate()\<close> fails with a
  \<^verbatim>\<open>RangeError\<close> after its read.
\<close>

lemma migrate_inherited_key:
  "\<exists>b'. migrate \<lparr>item_key = ''local:toString'', item_driver = Driver Local,
                    item_driverKey = ''toString'', targetVersion = 1,
                    item_migrations = no_migrations, item_opts = None\<rparr>
                  (example_browser [] [])
           = Some (Inr (), b')
       \<and> calls b' = [(Local, GetKeys [''toString'', ''toString$'']),
                      (Local, SetItems [(''toString'', JInherited ''toString''),
                                        (''toString$'', JObj [(''v'', JNum 1)])])]"
  by (simp add: migrate_def driver_getItems_def area_call_def getStorageArea_def example_browser_def
      area_get_keys_def List.map_filter_simps get_member_def object_prototype_def getMetaKey_def
      coalesce_def currentVersion_def migration_loop_def migrationsToRun_def no_migrations_def
      driver_setItems_def area_set_def Let_def)

lemma migrate_range_error:
  assumes "item_driver it = Driver d" and "available b d"
    and "\<not> nullish (stored b d (item_driverKey it))"
    and "currentVersion (stored b d (getMetaKey (item_driverKey it))) = JNum cv"
    and "targetVersion it - cv \<ge> 2 ^ 32"
  shows "migrate it b =
     Some (Inl RangeError,
           b\<lparr>calls := calls b @
               [(d, GetKeys [item_driverKey it, getMetaKey (item_driverKey it)])]\<rparr>)"
proof -
  from assms(5) have "\<not> cv > targetVersion it"
    by (smt (verit) zero_less_power)
  with assms(5) show ?thesis
    by (simp add: migrate_present[OF assms(1-4)] Let_def migration_loop_def migrationsToRun_def)
qed

section \<open>The claim about key resolution\<close>

text \<open>
  Claim C4 fails on the code: the key \<^verbatim>\<open>"local:"\<close>, whose local key is empty, is
  resolved without an error, to the local area and the empty key.
\<close>

theorem resolveKey_accepts_empty_local_key:
  "resolveKey ''local:'' = Inr \<lparr>driverArea = ''local'', driverKey = [], driver = Driver Local\<rparr>"
  by (simp add: resolveKey_def substring_def substring_from_def getDriver_def drivers_def Let_def)

text \<open>The error for a malformed key is never the result, whatever the key.\<close>

lemma resolveKey_never_malformed: "resolveKey key \<noteq> Inl (MalformedKey k)"
  by (auto simp: resolveKey_def Let_def getDriver_def split: sum.splits option.splits)

text \<open>
  A key whose area token, the part before the first delimiter, is found nowhere in the
  table of the drivers is refused with the invalid-area error; a key without delimiter has
  the empty area token and is refused in this way. An area token that is the name of a
  member of \<^verbatim>\<open>Object.prototype\<close> is not refused: the key resolves, to something that is
  no driver.
\<close>

lemma resolveKey_invalid_area:
  "drivers (substring key 0 (indexOf key CHR '':'')) = None \<Longrightarrow>
   resolveKey key = Inl (InvalidArea (substring key 0 (indexOf key CHR '':'')))"
  by (simp add: resolveKey_def Let_def getDriver_def)

lemma resolveKey_without_delimiter: "resolveKey ''local'' = Inl (InvalidArea [])"
  by (simp add: resolveKey_def substring_def substring_from_def getDriver_def drivers_def Let_def
      object_prototype_def)

lemma resolveKey_inherited_area:
  "resolveKey ''constructor:k''
     = Inr \<lparr>driverArea = ''constructor'', driverKey = ''k'', driver = InheritedMember ''constructor''\<rparr>"
  by (simp add: resolveKey_def substring_def substring_from_def getDriver_def drivers_def Let_def
      object_prototype_def)

section \<open>The claims about metadata\<close>




text \<open>
  The two examples of the specification, run from an area that holds nothing:
  \<^verbatim>\<open>setMeta(k, {a:1}); setMeta(k, {b:2})\<close> makes \<^verbatim>\<open>getMeta(k)\<close> return
  \<^verbatim>\<open>{a:1, b:2}\<close>, and \<^verbatim>\<open>setMeta(k, {a:null})\<close> after that leaves \<^verbatim>\<open>{b:2}\<close>.
\<close>

lemma setMeta_examples:
  "fst (getMeta (Driver Local) ''k''
         (snd (setMeta (Driver Local) ''k'' (JObj [(''b'', JNum 2)])
           (snd (setMeta (Driver Local) ''k'' (JObj [(''a'', JNum 1)]) (example_browser [] []))))))
     = Inr (JObj [(''a'', JNum 1), (''b'', JNum 2)])"
  "fst (getMeta (Driver Local) ''k''
         (snd (setMeta (Driver Local) ''k'' (JObj [(''a'', JNull)])
           (snd (setMeta (Driver Local) ''k'' (JObj [(''b'', JNum 2)])
             (snd (setMeta (Driver Local) ''k'' (JObj [(''a'', JNum 1)]) (example_browser [] []))))))))
     = Inr (JObj [(''b'', JNum 2)])"
  by (simp_all add: getMeta_def setMeta_def driver_getItem_def driver_setItem_def area_call_def
      getStorageArea_def example_browser_def getMetaKey_def getMetaValue_def get_member_def
      object_prototype_def area_get_key_def area_set_def object_entries_def merge_field_def Let_def)

text \<open>
  Claim C7 fails on the code: when the shadow key holds \<^verbatim>\<open>null\<close>, \<^verbatim>\<open>getMeta\<close> returns
  \<^verbatim>\<open>null\<close>, not an empty object.
\<close>

theorem getMeta_of_stored_null:
  "fst (getMeta (Driver Local) ''k'' (example_browser [(''k$'', JNull)] [])) = Inr JNull"
  by (simp add: getMeta_ok[OF example_getStorageArea] getMetaKey_def getMetaValue_def)

text \<open>For the other shapes that are not objects, the result is the empty object.\<close>

lemma getMetaValue_non_object:
  "getMetaValue JUndefined = JObj []" "getMetaValue (JBool x) = JObj []"
  "getMetaValue (JNum n) = JObj []" "getMetaValue (JStr s) = JObj []"
  "getMetaValue (JArr xs) = JObj []"
  by (simp_all add: getMetaValue_def)

section \<open>The claim about setting and getting a value\<close>

text \<open>
  Claim C8 fails on the code: \<^verbatim>\<open>toString\<close> is the name of a member of
  \<^verbatim>\<open>Object.prototype\<close>. After \<^verbatim>\<open>setItem("local:toString", null)\<close> on an area that holds
  nothing, the area still holds nothing, and \<^verbatim>\<open>getItem("local:toString", { fallback: 9 })\<close>
  reads \<^verbatim>\<open>res[key]\<close> off the host's empty result and returns the inherited function, not
  the fallback.
\<close>

theorem getItem_after_setItem_null_returns_inherited:
  "fst (storage_getItem ''local:toString'' (Some \<lparr>defaultValue = JUndefined, fallback = JNum 9\<rparr>)
          (snd (storage_setItem ''local:toString'' JNull (example_browser [] []))))
     = Inr (JInherited ''toString'')"
  by (simp add: storage_getItem_def storage_setItem_def resolveKey_def substring_def
      substring_from_def getDriver_def drivers_def Let_def setItem_def getItem_def coalesce_def
      driver_setItem_def driver_getItem_def area_call_def getStorageArea_def example_browser_def
      area_remove_def area_get_key_def get_member_def object_prototype_def getValueOrFallback_def)

text \<open>
  For every other key the claim holds, and on the area itself: after \<^verbatim>\<open>setItem(k, v)\<close>
  the area holds \<open>v\<close> under the local key when \<open>v\<close> is not \<^verbatim>\<open>null\<close> or
  \<^verbatim>\<open>undefined\<close>, and nothing otherwise, as after a removal; every other key of the area
  is as before; \<^verbatim>\<open>getItem(k)\<close> then returns \<open>v\<close>, or the fallback of its options, or
  \<^verbatim>\<open>null\<close>.
\<close>

lemma setItem_getItem_roundtrip:
  assumes "resolveKey key = Inr r" and "driver r = Driver d" and "getStorageArea d b = Inr st"
  shows "\<exists>b' st'. storage_setItem key v b = (Inr (), b')
           \<and> getStorageArea d b' = Inr st'
           \<and> map_of st' (driverKey r) = (if nullish v then None else Some v)
           \<and> (\<forall>k. k \<noteq> driverKey r \<longrightarrow> map_of st' k = map_of st k)
           \<and> (\<not> nullish v \<or> driverKey r \<notin> set object_prototype \<longrightarrow>
                fst (storage_getItem key opts b')
                  = Inr (if nullish v then coalesce (opts_fallback opts) JNull else v))"
proof (cases "nullish v")
  case True
  then have cn: "coalesce v JNull = JNull" by (simp add: coalesce_def)
  let ?b' = "b\<lparr>areas := (areas b)(d := Some (area_remove st (driverKey r))),
               calls := calls b @ [(d, RemoveKey (driverKey r))]\<rparr>"
  have s: "storage_setItem key v b = (Inr (), ?b')"
    using assms by (simp add: storage_setItem_def setItem_def cn driver_setItem_def area_call_ok)
  have g: "getStorageArea d ?b' = Inr (area_remove st (driverKey r))"
    using assms(3) by (simp add: getStorageArea_Inr)
  have r: "fst (storage_getItem key opts ?b')
             = Inr (getValueOrFallback (get_member (area_remove st (driverKey r)) (driverKey r))
                      (opts_fallback opts))"
    using assms(1,2) by (simp add: storage_getItem_def getItem_def driver_getItem_ok[OF g])
  have "driverKey r \<notin> set object_prototype \<longrightarrow>
          fst (storage_getItem key opts ?b') = Inr (coalesce (opts_fallback opts) JNull)"
    unfolding r
    by (simp add: get_member_def area_remove_def delete_conv' getValueOrFallback_def coalesce_def)
  with s g True show ?thesis
    by (auto simp: area_remove_def delete_conv')
next
  case False
  then have cn: "coalesce v JNull = v" by (simp add: coalesce_def)
  let ?b' = "b\<lparr>areas := (areas b)(d := Some (area_set st [(driverKey r, v)])),
               calls := calls b @ [(d, SetItems [(driverKey r, v)])]\<rparr>"
  have s: "storage_setItem key v b = (Inr (), ?b')"
    using assms False
    by (simp add: storage_setItem_def setItem_def cn driver_setItem_def area_call_ok)
  have g: "getStorageArea d ?b' = Inr (area_set st [(driverKey r, v)])"
    using assms(3) by (simp add: getStorageArea_Inr)
  have r: "fst (storage_getItem key opts ?b')
             = Inr (getValueOrFallback (get_member (area_set st [(driverKey r, v)]) (driverKey r))
                      (opts_fallback opts))"
    using assms(1,2) by (simp add: storage_getItem_def getItem_def driver_getItem_ok[OF g])
  have "fst (storage_getItem key opts ?b') = Inr v"
    unfolding r using False
    by (simp add: get_member_def area_set_def update_conv' getValueOrFallback_def coalesce_def)
  with s g False show ?thesis
    by (auto simp: area_set_def update_conv')
qed

section \<open>The claim about snapshots\<close>

lemma fold_delete_props:
  "fold (\<lambda>key acc. delete_prop (getMetaKey key) (delete_prop key acc)) ex (JObj fs)
     = JObj (filter (\<lambda>(k, v). k \<notin> set ex \<and> k \<notin> getMetaKey ` set ex) fs)"
proof (induction ex arbitrary: fs)
  case Nil
  then show ?case by simp
next
  case (Cons e ex)
  have "filter (\<lambda>(k, v). k \<notin> set ex \<and> k \<notin> getMetaKey ` set ex)
          (AList.delete (getMetaKey e) (AList.delete e fs))
        = filter (\<lambda>(k, v). k \<notin> set (e # ex) \<and> k \<notin> getMetaKey ` set (e # ex)) fs"
    by (induction fs) (auto simp: AList.delete_eq)
  with Cons.IH show ?case by simp
qed

text \<open>
  Claim C10. For an area that exists and is available, \<^verbatim>\<open>snapshot\<close> returns the entries
  of the area, in their order, without those whose key is one of the excluded keys or the
  shadow key of one; with no options or no \<^verbatim>\<open>excludeKeys\<close> nothing is excluded.
\<close>

theorem snapshot_excludes_keys_and_meta:
  assumes "getDriver base = Inr (Driver d)" and "getStorageArea d b = Inr st"
  shows "fst (snapshot base opts b)
           = Inr (JObj (filter (\<lambda>(k, v). k \<notin> set (opt_excludeKeys opts)
                                       \<and> k \<notin> getMetaKey ` set (opt_excludeKeys opts)) st))"
  using assms
  by (simp add: snapshot_def driver_snapshot_def area_call_ok area_get_all_def fold_delete_props)

text \<open>
  Claim C10, witness: the local area holds \<^verbatim>\<open>a\<close>, \<^verbatim>\<open>b\<close> and their shadow keys, and
  \<^verbatim>\<open>a\<close> is excluded: the snapshot holds \<^verbatim>\<open>b\<close> and \<^verbatim>\<open>b$\<close>.
\<close>

theorem snapshot_excludes_keys_and_meta_witness:
  "getDriver ''local'' = Inr (Driver Local)
   \<and> getStorageArea Local
        (example_browser [(''a'', JNum 1), (''b'', JNum 2), (''a$'', JObj []), (''b$'', JObj [])] [])
       = Inr [(''a'', JNum 1), (''b'', JNum 2), (''a$'', JObj []), (''b$'', JObj [])]
   \<and> fst (snapshot ''local'' (Some \<lparr>excludeKeys = Some [''a'']\<rparr>)
            (example_browser [(''a'', JNum 1), (''b'', JNum 2), (''a$'', JObj []), (''b$'', JObj [])] []))
       = Inr (JObj [(''b'', JNum 2), (''b$'', JObj [])])"
proof -
  have h1: "getDriver ''local'' = Inr (Driver Local)"
    by (simp add: getDriver_def drivers_def)
  have h2: "getStorageArea Local
        (example_browser [(''a'', JNum 1), (''b'', JNum 2), (''a$'', JObj []), (''b$'', JObj [])] [])
       = Inr [(''a'', JNum 1), (''b'', JNum 2), (''a$'', JObj []), (''b$'', JObj [])]"
    by (rule example_getStorageArea)
  from snapshot_excludes_keys_and_meta[OF h1 h2, of "Some \<lparr>excludeKeys = Some [''a'']\<rparr>"] h1 h2
  show ?thesis
    by (simp add: opt_excludeKeys_def getMetaKey_def)
qed

section \<open>The claim about batched reads\<close>

text \<open>
  A key that resolves is its area, the delimiter and its local key, and putting an area
  name, the delimiter and a local key together gives a key that resolves to them.
\<close>

lemma indexOf_cases:
  "indexOf s c = -1 \<or> (0 \<le> indexOf s c \<and> nat (indexOf s c) < length s \<and> s ! nat (indexOf s c) = c)"
proof (induction s)
  case Nil
  then show ?case by simp
next
  case (Cons x xs)
  then show ?case
    by (auto simp: Let_def nat_add_distrib)
qed

lemma indexOf_append:
  "c \<notin> set a \<Longrightarrow> indexOf (a @ c # rest) c = int (length a)"
  by (induction a) (auto simp: Let_def)

lemma drivers_no_colon:
  assumes "drivers a = Some d"
  shows "CHR '':'' \<notin> set a"
proof -
  from assms have "a \<in> set ([''local'', ''session'', ''sync'', ''managed''] @ object_prototype)"
    by (simp add: drivers_def split: if_splits)
  moreover have "\<forall>n \<in> set ([''local'', ''session'', ''sync'', ''managed''] @ object_prototype).
                   CHR '':'' \<notin> set n"
    by (simp add: object_prototype_def)
  ultimately show ?thesis by blast
qed

lemma substring_prefix: "substring (a @ c # rk) 0 (int (length a)) = a"
  by (simp add: substring_def Let_def min_def max_def)

lemma substring_suffix: "substring_from (a @ c # rk) (int (length a) + 1) = rk"
  by (simp add: substring_from_def substring_def Let_def min_def max_def nat_add_distrib)

lemma resolveKey_join:
  assumes "drivers a = Some d"
  shows "resolveKey (a @ '':'' @ rk) = Inr \<lparr>driverArea = a, driverKey = rk, driver = d\<rparr>"
proof -
  have i: "indexOf (a @ CHR '':'' # rk) CHR '':'' = int (length a)"
    using indexOf_append[OF drivers_no_colon[OF assms], of rk] by simp
  have "resolveKey (a @ CHR '':'' # rk) = Inr \<lparr>driverArea = a, driverKey = rk, driver = d\<rparr>"
    unfolding resolveKey_def i Let_def substring_prefix substring_suffix
    using assms by (simp add: getDriver_def)
  then show ?thesis by simp
qed

lemma resolveKey_sound:
  assumes "resolveKey k = Inr r"
  shows "drivers (driverArea r) = Some (driver r) \<and> k = driverArea r @ '':'' @ driverKey r"
proof -
  let ?i = "indexOf k CHR '':''"
  have nonneg: "?i \<noteq> -1"
  proof
    assume "?i = -1"
    then have "substring k 0 ?i = []" by (simp add: substring_def)
    with assms show False
      by (simp add: resolveKey_def Let_def getDriver_def drivers_def object_prototype_def
          split: sum.splits option.splits)
  qed
  with indexOf_cases[of k "CHR '':''"] have
    r: "0 \<le> ?i" "nat ?i < length k" "k ! nat ?i = CHR '':''" by auto
  then have lt: "?i < int (length k)" by linarith
  have a: "substring k 0 ?i = take (nat ?i) k"
    using r(1) lt by (simp add: substring_def Let_def min_def max_def)
  have d: "substring_from k (?i + 1) = drop (Suc (nat ?i)) k"
    using r(1) lt by (simp add: substring_from_def substring_def Let_def min_def max_def nat_add_distrib)
  from assms have "driverArea r = take (nat ?i) k" "driverKey r = drop (Suc (nat ?i)) k"
    "drivers (driverArea r) = Some (driver r)"
    by (auto simp: resolveKey_def Let_def a d getDriver_def split: sum.splits option.splits)
  moreover have "k = take (nat ?i) k @ k ! nat ?i # drop (Suc (nat ?i)) k"
    using r(2) by (rule id_take_nth_drop)
  ultimately show ?thesis using r(3) by simp
qed


lemma set_update_subset: "set (AList.update k v al) \<subseteq> insert (k, v) (set al)"
  by (induction al) auto

lemma reachable_areas_update:
  assumes "reachable_areas b atk" and "drivers a = Some (Driver d)" and "available b d"
  shows "reachable_areas b (AList.update a ks atk)"
  using assms set_update_subset[of a ks atk]
  by (fastforce simp: reachable_areas_def)

lemma covers_update_new:
  assumes "resolveKey k = Inr r"
  shows "covers (AList.update (driverArea r) (ks0 @ [driverKey r]) atk) k"
  using assms by (auto simp: covers_def update_conv')

lemma covers_update_old:
  assumes "covers atk k"
  shows "covers (AList.update a
                  ((case map_of atk a of Some ks \<Rightarrow> ks | None \<Rightarrow> []) @ [dk]) atk) k"
proof -
  from assms obtain r ks where
    r: "resolveKey k = Inr r" "map_of atk (driverArea r) = Some ks" "driverKey r \<in> set ks"
    by (auto simp: covers_def)
  show ?thesis
  proof (cases "driverArea r = a")
    case True
    with r show ?thesis
      by (auto simp: covers_def update_conv')
  next
    case False
    with r show ?thesis
      by (auto simp: covers_def update_conv')
  qed
qed

lemma map_of_snoc:
  "map_of (xs @ [(k, v)]) k' = (case map_of xs k' of Some w \<Rightarrow> Some w | None \<Rightarrow> (if k' = k then Some v else None))"
  by (auto simp: map_add_def split: option.splits)

lemma getItems_collect_ok:
  assumes "\<forall>key \<in> set keys. \<exists>r d. resolveKey (fst (getItems_entry key)) = Inr r
                                   \<and> driver r = Driver d \<and> available b d"
  shows "\<exists>acc'. getItems_collect keys acc = Inr acc'
           \<and> orderedKeys acc' = orderedKeys acc @ map (\<lambda>key. fst (getItems_entry key)) keys
           \<and> (\<forall>k. map_of (keyToOptsMap acc') k =
                    (case map_of (rev (map getItems_entry keys)) k of
                       Some opts \<Rightarrow> Some opts
                     | None \<Rightarrow> map_of (keyToOptsMap acc) k))
           \<and> (reachable_areas b (areaToKeyMap acc) \<longrightarrow> reachable_areas b (areaToKeyMap acc'))
           \<and> (\<forall>k. covers (areaToKeyMap acc) k \<longrightarrow> covers (areaToKeyMap acc') k)
           \<and> (\<forall>key \<in> set keys. covers (areaToKeyMap acc') (fst (getItems_entry key)))"
  using assms
proof (induction keys arbitrary: acc)
  case Nil
  then show ?case by simp
next
  case (Cons key rest)
  obtain keyStr opts where e: "getItems_entry key = (keyStr, opts)"
    by (cases "getItems_entry key")
  from Cons.prems e obtain r d where
    r: "resolveKey keyStr = Inr r" "available b d" and rd: "driver r = Driver d"
    by auto
  from resolveKey_sound[OF r(1)] rd have dr: "drivers (driverArea r) = Some (Driver d)" by simp
  let ?areaKeys = "case map_of (areaToKeyMap acc) (driverArea r) of Some ks \<Rightarrow> ks | None \<Rightarrow> []"
  let ?acc1 = "\<lparr>areaToKeyMap = AList.update (driverArea r) (?areaKeys @ [driverKey r]) (areaToKeyMap acc),
               keyToOptsMap = AList.update keyStr opts (keyToOptsMap acc),
               orderedKeys = orderedKeys acc @ [keyStr]\<rparr>"
  have step: "getItems_collect (key # rest) acc = getItems_collect rest ?acc1"
    by (simp add: e r(1) Let_def)
  from Cons.prems have "\<forall>key \<in> set rest. \<exists>r d. resolveKey (fst (getItems_entry key)) = Inr r
                                   \<and> driver r = Driver d \<and> available b d"
    by simp
  from Cons.IH[OF this, of ?acc1] obtain acc' where
    ih: "getItems_collect rest ?acc1 = Inr acc'"
        "orderedKeys acc' = orderedKeys ?acc1 @ map (\<lambda>key. fst (getItems_entry key)) rest"
        "\<forall>k. map_of (keyToOptsMap acc') k =
                    (case map_of (rev (map getItems_entry rest)) k of
                       Some opts \<Rightarrow> Some opts
                     | None \<Rightarrow> map_of (keyToOptsMap ?acc1) k)"
        "reachable_areas b (areaToKeyMap ?acc1) \<longrightarrow> reachable_areas b (areaToKeyMap acc')"
        "\<forall>k. covers (areaToKeyMap ?acc1) k \<longrightarrow> covers (areaToKeyMap acc') k"
        "\<forall>key \<in> set rest. covers (areaToKeyMap acc') (fst (getItems_entry key))"
    by blast
  have o: "orderedKeys acc' = orderedKeys acc @ map (\<lambda>key. fst (getItems_entry key)) (key # rest)"
    using ih(2) e by simp
  have k2o: "\<forall>k. map_of (keyToOptsMap acc') k =
                    (case map_of (rev (map getItems_entry (key # rest))) k of
                       Some opts \<Rightarrow> Some opts
                     | None \<Rightarrow> map_of (keyToOptsMap acc) k)"
  proof
    fix k
    show "map_of (keyToOptsMap acc') k =
                    (case map_of (rev (map getItems_entry (key # rest))) k of
                       Some opts \<Rightarrow> Some opts
                     | None \<Rightarrow> map_of (keyToOptsMap acc) k)"
      using ih(3)[rule_format, of k]
      by (simp add: e map_of_snoc[simplified] update_conv' map_add_def split: option.splits)
  qed
  have g: "reachable_areas b (areaToKeyMap acc) \<longrightarrow> reachable_areas b (areaToKeyMap acc')"
    using ih(4) reachable_areas_update[OF _ dr r(2)] by simp
  have c1: "\<forall>k. covers (areaToKeyMap acc) k \<longrightarrow> covers (areaToKeyMap acc') k"
    using ih(5) covers_update_old by simp
  have c2: "covers (areaToKeyMap acc') (fst (getItems_entry key))"
    using ih(5) covers_update_new[OF r(1)] e by simp
  show ?case
    using step ih(1) o k2o g c1 c2 ih(6) by simp
qed


lemma available_calls [simp]: "available (b\<lparr>calls := cs\<rparr>) d = available b d"
  by (simp add: available_def)

lemma reported_calls [simp]: "reported (b\<lparr>calls := cs\<rparr>) d k = reported b d k"
  by (simp add: reported_def)

lemma reachable_areas_calls [simp]: "reachable_areas (b\<lparr>calls := cs\<rparr>) atk = reachable_areas b atk"
  by (simp add: reachable_areas_def)

lemma recorded_value_calls [simp]: "recorded_value (b\<lparr>calls := cs\<rparr>) k2o k = recorded_value b k2o k"
  by (simp add: recorded_value_def split: sum.splits driver_value.splits)

lemma area_batch_calls [simp]: "area_batch (b\<lparr>calls := cs\<rparr>) k2o e = area_batch b k2o e"
  by (simp add: area_batch_def)

lemma getItems_area_ok:
  assumes "drivers a = Some (Driver d)" and "available b d"
  shows "getItems_area k2o (a, ks) b =
           (Inr (area_batch b k2o (a, ks)), b\<lparr>calls := calls b @ [(d, GetKeys ks)]\<rparr>)"
proof -
  have "\<And>rk. recorded_value b k2o (a @ '':'' @ rk)
          = getValueOrFallback (reported b d rk)
              (opts_fallback (case map_of k2o (a @ '':'' @ rk) of Some o1 \<Rightarrow> o1 | None \<Rightarrow> None))"
    using resolveKey_join[OF assms(1)] by (simp add: recorded_value_def)
  then show ?thesis
    using assms by (simp add: getItems_area_def driver_getItems_ok area_batch_def Let_def comp_def)
qed

lemma promise_all_getItems_area:
  assumes "reachable_areas b atk"
  shows "\<exists>cs. promise_all (getItems_area k2o) atk b
                = (Inr (map (area_batch b k2o) atk), b\<lparr>calls := cs\<rparr>)"
  using assms
proof (induction atk arbitrary: b)
  case Nil
  have "b = b\<lparr>calls := calls b\<rparr>" by simp
  then show ?case by (metis promise_all.simps(1) list.simps(8))
next
  case (Cons x atk)
  obtain a ks where x: "x = (a, ks)" by (cases x)
  from Cons.prems x obtain d where d: "drivers a = Some (Driver d)" "available b d"
    by (auto simp: reachable_areas_def)
  let ?b1 = "b\<lparr>calls := calls b @ [(d, GetKeys ks)]\<rparr>"
  from Cons.prems have "reachable_areas ?b1 atk"
    by (simp add: reachable_areas_def)
  from Cons.IH[OF this] obtain cs where
    ih: "promise_all (getItems_area k2o) atk ?b1 = (Inr (map (area_batch ?b1 k2o) atk), ?b1\<lparr>calls := cs\<rparr>)"
    by blast
  have "promise_all (getItems_area k2o) (x # atk) b
          = (Inr (map (area_batch b k2o) (x # atk)), b\<lparr>calls := cs\<rparr>)"
    by (simp add: x getItems_area_ok[OF d] ih)
  then show ?case by blast
qed

lemma map_of_fold_update:
  "map_of (fold (\<lambda>(k, v) m. AList.update k v m) es acc) k =
     (case map_of (rev es) k of Some v \<Rightarrow> Some v | None \<Rightarrow> map_of acc k)"
proof (induction es arbitrary: acc)
  case Nil
  then show ?case by simp
next
  case (Cons e es)
  obtain k' v' where e: "e = (k', v')" by (cases e)
  show ?case
    by (simp add: e Cons.IH update_conv' map_add_def split: option.splits)
qed

lemma resultsMap_lookup:
  assumes "\<forall>(k, v) \<in> set es. v = g k" and "k \<in> fst ` set es"
  shows "map_of (fold (\<lambda>(k, v) m. AList.update k v m) es []) k = Some (g k)"
proof -
  from assms(2) have "k \<in> fst ` set (rev es)" by simp
  then obtain v where v: "map_of (rev es) k = Some v"
    by (metis weak_map_of_SomeI imageE prod.collapse)
  then have "(k, v) \<in> set es" using map_of_SomeD by fastforce
  with assms(1) have "v = g k" by auto
  with v show ?thesis by (simp add: map_of_fold_update)
qed

lemma batches_entries:
  "\<forall>(k, v) \<in> set (concat (map (area_batch b k2o) atk)). v = recorded_value b k2o k"
  by (auto simp: area_batch_def)

lemma covers_in_batches:
  assumes "covers atk k"
  shows "k \<in> fst ` set (concat (map (area_batch b k2o) atk))"
proof -
  from assms obtain r ks where
    r: "resolveKey k = Inr r" "map_of atk (driverArea r) = Some ks" "driverKey r \<in> set ks"
    by (auto simp: covers_def)
  from r(2) have m: "(driverArea r, ks) \<in> set atk" by (rule map_of_SomeD)
  from resolveKey_sound[OF r(1)] have k: "k = driverArea r @ '':'' @ driverKey r" by simp
  have "(driverArea r @ '':'' @ driverKey r, recorded_value b k2o (driverArea r @ '':'' @ driverKey r))
          \<in> set (area_batch b k2o (driverArea r, ks))"
    using r(3) by (auto simp: area_batch_def)
  with m have "(driverArea r @ '':'' @ driverKey r, recorded_value b k2o (driverArea r @ '':'' @ driverKey r))
          \<in> set (concat (map (area_batch b k2o) atk))"
    by auto
  then show ?thesis using k by (metis fst_conv image_eqI)
qed

lemma resolveKey_examples:
  "resolveKey ''local:a'' = Inr \<lparr>driverArea = ''local'', driverKey = ''a'', driver = Driver Local\<rparr>"
  "resolveKey ''local:b'' = Inr \<lparr>driverArea = ''local'', driverKey = ''b'', driver = Driver Local\<rparr>"
  "resolveKey ''session:a'' = Inr \<lparr>driverArea = ''session'', driverKey = ''a'', driver = Driver Session\<rparr>"
  by (simp_all add: resolveKey_def substring_def substring_from_def getDriver_def drivers_def Let_def)

lemma example_available_session: "available (example_browser l s) Session"
  by (simp add: available_def example_browser_def)

lemma example_reported:
  "reported (example_browser l s) Local key = coalesce (get_member l key) JNull"
  "reported (example_browser l s) Session key = coalesce (get_member s key) JNull"
  by (simp_all add: reported_def example_browser_def)

text \<open>
  Claim C5. If every key of the list resolves to a driver whose area is available,
  \<^verbatim>\<open>getItems\<close> returns one entry for each entry of the list, in the order of the list;
  the entry has the key of the input and the value the driver reports for it, or its
  fallback. The areas are left as they were.
\<close>

theorem getItems_in_caller_order:
  assumes "\<forall>key \<in> set keys. \<exists>r d. resolveKey (fst (getItems_entry key)) = Inr r
                                   \<and> driver r = Driver d \<and> available b d"
  shows "fst (getItems keys b)
           = Inr (map (\<lambda>key. (fst (getItems_entry key),
                               getItems_value b keys (fst (getItems_entry key)))) keys)
         \<and> areas (snd (getItems keys b)) = areas b"
proof -
  let ?acc0 = "\<lparr>areaToKeyMap = [], keyToOptsMap = [], orderedKeys = []\<rparr>"
  from getItems_collect_ok[OF assms, of ?acc0] obtain acc where
    raw: "getItems_collect keys ?acc0 = Inr acc"
         "orderedKeys acc = orderedKeys ?acc0 @ map (\<lambda>key. fst (getItems_entry key)) keys"
         "\<forall>k. map_of (keyToOptsMap acc) k =
                    (case map_of (rev (map getItems_entry keys)) k of
                       Some opts \<Rightarrow> Some opts
                     | None \<Rightarrow> map_of (keyToOptsMap ?acc0) k)"
         "reachable_areas b (areaToKeyMap ?acc0) \<longrightarrow> reachable_areas b (areaToKeyMap acc)"
         "\<forall>key \<in> set keys. covers (areaToKeyMap acc) (fst (getItems_entry key))"
    by blast
  note acc1 = raw(1)
  have acc2: "orderedKeys acc = map (\<lambda>key. fst (getItems_entry key)) keys"
    using raw(2) by simp
  have acc3: "\<And>k. map_of (keyToOptsMap acc) k = map_of (rev (map getItems_entry keys)) k"
    using raw(3) by (simp split: option.splits)
  have acc4: "reachable_areas b (areaToKeyMap acc)"
    using raw(4) by (simp add: reachable_areas_def)
  note acc5 = raw(5)
  from promise_all_getItems_area[OF acc4, of "keyToOptsMap acc"] obtain cs where
    pa: "promise_all (getItems_area (keyToOptsMap acc)) (areaToKeyMap acc) b
           = (Inr (map (area_batch b (keyToOptsMap acc)) (areaToKeyMap acc)), b\<lparr>calls := cs\<rparr>)"
    by blast
  let ?es = "concat (map (area_batch b (keyToOptsMap acc)) (areaToKeyMap acc))"
  have rv: "\<And>k. recorded_value b (keyToOptsMap acc) k = getItems_value b keys k"
    by (simp add: recorded_value_def getItems_value_def getItems_opts_def acc3
        split: sum.splits driver_value.splits)
  have look: "\<And>key. key \<in> set keys \<Longrightarrow>
      map_of (fold (\<lambda>(k, v) m. AList.update k v m) ?es []) (fst (getItems_entry key))
        = Some (getItems_value b keys (fst (getItems_entry key)))"
  proof -
    fix key assume "key \<in> set keys"
    with acc5 have "covers (areaToKeyMap acc) (fst (getItems_entry key))" by simp
    from resultsMap_lookup[OF batches_entries covers_in_batches[OF this]]
    show "map_of (fold (\<lambda>(k, v) m. AList.update k v m) ?es []) (fst (getItems_entry key))
        = Some (getItems_value b keys (fst (getItems_entry key)))"
      by (simp add: rv)
  qed
  have g: "getItems keys b =
      (Inr (map (\<lambda>key. (key, (case map_of (fold (\<lambda>(k, v) m. AList.update k v m) ?es []) key of
                                 Some v \<Rightarrow> v | None \<Rightarrow> JUndefined)))
              (orderedKeys acc)), b\<lparr>calls := cs\<rparr>)"
    by (simp add: getItems_def acc1 pa Let_def)
  have "map (\<lambda>key. (key, (case map_of (fold (\<lambda>(k, v) m. AList.update k v m) ?es []) key of
                                 Some v \<Rightarrow> v | None \<Rightarrow> JUndefined)))
              (orderedKeys acc)
        = map (\<lambda>key. (fst (getItems_entry key),
                               getItems_value b keys (fst (getItems_entry key)))) keys"
    unfolding acc2 map_map comp_def
    by (rule map_cong) (simp_all add: look)
  with g show ?thesis by simp
qed


text \<open>
  Claim C5, witness: the example of the specification,
  \<^verbatim>\<open>getItems(["local:b", "session:a", "local:a"])\<close>, on a host whose local area holds
  \<^verbatim>\<open>a\<close> = 1 and \<^verbatim>\<open>b\<close> = 2 and whose session area is empty.
\<close>

theorem getItems_in_caller_order_witness:
  "resolveKey ''local:b'' = Inr \<lparr>driverArea = ''local'', driverKey = ''b'', driver = Driver Local\<rparr>
   \<and> resolveKey ''session:a'' = Inr \<lparr>driverArea = ''session'', driverKey = ''a'', driver = Driver Session\<rparr>
   \<and> resolveKey ''local:a'' = Inr \<lparr>driverArea = ''local'', driverKey = ''a'', driver = Driver Local\<rparr>
   \<and> available (example_browser [(''a'', JNum 1), (''b'', JNum 2)] []) Local
   \<and> available (example_browser [(''a'', JNum 1), (''b'', JNum 2)] []) Session
   \<and> fst (getItems [KeyString ''local:b'', KeyString ''session:a'', KeyString ''local:a'']
            (example_browser [(''a'', JNum 1), (''b'', JNum 2)] []))
       = Inr [(''local:b'', JNum 2), (''session:a'', JNull), (''local:a'', JNum 1)]"
proof -
  let ?keys = "[KeyString ''local:b'', KeyString ''session:a'', KeyString ''local:a'']"
  let ?b = "example_browser [(''a'', JNum 1), (''b'', JNum 2)] []"
  have h: "\<forall>key \<in> set ?keys. \<exists>r d. resolveKey (fst (getItems_entry key)) = Inr r
                                   \<and> driver r = Driver d \<and> available ?b d"
    by (simp add: resolveKey_examples example_available example_available_session)
  have v: "getItems_value ?b ?keys ''local:b'' = JNum 2"
          "getItems_value ?b ?keys ''session:a'' = JNull"
          "getItems_value ?b ?keys ''local:a'' = JNum 1"
    by (simp_all add: getItems_value_def resolveKey_examples example_reported get_member_def
        object_prototype_def getItems_opts_def getValueOrFallback_def opts_fallback_def coalesce_def)
  from getItems_in_caller_order[OF h] v have
    "fst (getItems ?keys ?b) = Inr [(''local:b'', JNum 2), (''session:a'', JNull), (''local:a'', JNum 1)]"
    by simp
  then show ?thesis
    by (simp add: resolveKey_examples example_available example_available_session)
qed


end
